theory Spec2Isabelle
  imports Main
begin

section \<open>Items and collections\<close>

text \<open>
  An item is a JavaScript object. Both kinds share one shape and are told apart by the
  flag \<open>_isTask\<close>; a flag that a note does not carry reads as falsy and is \<open>False\<close>
  here. A priority value is a number or a string: \<open>_getPriority\<close> yields the number 1
  or a one-character string, and \<open>updatePriority\<close> stores the string it was given. A
  note has no priority unless \<open>updatePriority\<close> gives it one.
\<close>

datatype prio = PNum nat | PStr string

record item =
  item_id :: nat
  created :: string
  description :: string
  isStarred :: bool
  boards :: "string list"
  isTask :: bool
  isComplete :: bool
  inProgress :: bool
  priority :: "prio option"

text \<open>
  A collection is the object parsed from the storage or the archive file: its keys are
  the decimal numerals of the ids, which JavaScript enumerates in ascending order. The key
  of an entry is kept as the number it denotes.
\<close>

type_synonym collection = "(nat \<times> item) list"

definition getIDs :: "collection \<Rightarrow> nat list" where
  "getIDs data = map fst data"

fun setKey :: "nat \<Rightarrow> item \<Rightarrow> collection \<Rightarrow> collection" where
  "setKey k v [] = [(k, v)]"
| "setKey k v ((k', v') # rest) =
     (if k = k' then (k, v) # rest
      else if k < k' then (k, v) # (k', v') # rest
      else (k', v') # setKey k v rest)"

definition deleteKey :: "nat \<Rightarrow> collection \<Rightarrow> collection" where
  "deleteKey k data = filter (\<lambda>e. fst e \<noteq> k) data"

section \<open>Id allocation\<close>

text \<open>\<open>Math.max(...ids)\<close> on a list that the caller has checked to be non-empty.\<close>

definition mathMax :: "nat list \<Rightarrow> nat" where
  "mathMax ids = fold max (tl ids) (hd ids)"

definition generateID :: "collection \<Rightarrow> nat" where
  "generateID data =
     (let ids = getIDs data;
          m = (if length ids = 0 then 0 else mathMax ids)
      in m + 1)"

section \<open>Strings and ids as the command line gives them\<close>

definition startsWith :: "string \<Rightarrow> string \<Rightarrow> bool" where
  "startsWith p x = (take (length p) x = p)"

fun join :: "string \<Rightarrow> string list \<Rightarrow> string" where
  "join sep [] = []"
| "join sep [x] = x"
| "join sep (x # y # ys) = x @ sep @ join sep (y # ys)"

text \<open>\<open>x.replace(c, '')\<close> for a one-character pattern: the first occurrence goes.\<close>

fun removeFirst :: "char \<Rightarrow> string \<Rightarrow> string" where
  "removeFirst c [] = []"
| "removeFirst c (x # xs) = (if x = c then xs else x # removeFirst c xs)"

text \<open>
  An id arrives as a string. \<open>_data[id]\<close> finds an entry only when the string is the
  decimal numeral of the entry's key, with no sign, blank or leading zero.
\<close>

definition digitOf :: "char \<Rightarrow> nat option" where
  "digitOf c = map_of (zip ''0123456789'' [0, 1, 2, 3, 4, 5, 6, 7, 8, 9]) c"

fun decimal :: "nat \<Rightarrow> string \<Rightarrow> nat option" where
  "decimal acc [] = Some acc"
| "decimal acc (c # cs) =
     (case digitOf c of None \<Rightarrow> None | Some k \<Rightarrow> decimal (10 * acc + k) cs)"

definition keyOf :: "string \<Rightarrow> nat option" where
  "keyOf s =
     (if s = [] then None
      else if hd s = CHR ''0'' \<and> 1 < length s then None
      else decimal 0 s)"

definition lookup :: "collection \<Rightarrow> string \<Rightarrow> (nat \<times> item) option" where
  "lookup data id' =
     (case keyOf id' of
        None \<Rightarrow> None
      | Some k \<Rightarrow> (case map_of data k of None \<Rightarrow> None | Some it \<Rightarrow> Some (k, it)))"

text \<open>The key strings that \<open>Object.keys\<close> returns: the numeral of each key.\<close>

definition digitChar :: "nat \<Rightarrow> char" where
  "digitChar k = ''0123456789'' ! k"

function showNat :: "nat \<Rightarrow> string" where
  "showNat n = (if n < 10 then [digitChar n] else showNat (n div 10) @ [digitChar (n mod 10)])"
  by pat_completeness auto
termination
  by (relation "measure (\<lambda>n. n)") auto

declare showNat.simps [simp del]

definition objectKeys :: "collection \<Rightarrow> string list" where
  "objectKeys data = map (\<lambda>e. showNat (fst e)) data"

text \<open>
  The built-in \<open>Number\<close> reads an id string as a number. Only its answer to "which
  existing id is this?" is used, so it is a function to \<open>nat option\<close>, \<open>None\<close> where
  the string is no natural number. It is a parameter of everything that validates ids:
  nothing below depends on how JavaScript spells numbers.
\<close>

type_synonym number = "string \<Rightarrow> nat option"

text \<open>\<open>Number\<close> on the strings of decimal digits, for evaluating examples.\<close>

definition digits :: number where
  "digits s = (if s = [] then None else decimal 0 s)"

section \<open>Errors and id validation\<close>

text \<open>
  Each \<open>render.x(); process.exit(1)\<close> and each exception that leaves a command is an
  error value. \<open>TypeError\<close> is what JavaScript raises on a property of \<open>undefined\<close>
  and on calling a method that the value does not have.
\<close>

datatype error =
    MissingID
  | InvalidID string
  | MissingDesc
  | MissingBoards
  | InvalidPriority
  | InvalidIDsNumber
  | MissingConfig string
  | TypeError

text \<open>\<open>[...new Set(xs)]\<close>: each element is added in turn unless it is already there.\<close>

fun addAll :: "'a list \<Rightarrow> 'a list \<Rightarrow> 'a list" where
  "addAll seen [] = seen"
| "addAll seen (x # xs) = addAll (if x \<in> set seen then seen else seen @ [x]) xs"

definition removeDuplicates :: "'a list \<Rightarrow> 'a list" where
  "removeDuplicates xs = addAll [] xs"

definition absent :: "number \<Rightarrow> nat list \<Rightarrow> string \<Rightarrow> bool" where
  "absent num existingIDs id' =
     (case num id' of None \<Rightarrow> True | Some n \<Rightarrow> n \<notin> set existingIDs)"

definition validateIDs :: "number \<Rightarrow> string list \<Rightarrow> nat list \<Rightarrow> error + string list" where
  "validateIDs num inputIDs existingIDs =
     (if length inputIDs = 0 then Inl MissingID
      else let ids = removeDuplicates inputIDs
           in (case find (absent num existingIDs) ids of
                 Some id' \<Rightarrow> Inl (InvalidID id')
               | None \<Rightarrow> Inr ids))"

text \<open>
  The single-target commands pass one string instead of an array: \<open>length\<close> is then
  the string's length and \<open>_arrayify\<close> wraps the string into a one-element array.
\<close>

definition validateID :: "number \<Rightarrow> string \<Rightarrow> nat list \<Rightarrow> error + string list" where
  "validateID num inputID existingIDs =
     (if length inputID = 0 then Inl MissingID
      else (case find (absent num existingIDs) (removeDuplicates [inputID]) of
              Some id' \<Rightarrow> Inl (InvalidID id')
            | None \<Rightarrow> Inr (removeDuplicates [inputID])))"

text \<open>
  \<open>_validateIDs\<close> is an \<open>async\<close> function. A caller that awaits it holds the array
  it returns; a caller that does not holds a Promise of that array. A Promise has no
  \<open>forEach\<close>, and as a property key it reads \<open>[object Promise]\<close>.
\<close>

datatype 'a js = Plain 'a | Promise 'a

fun each :: "'a list \<Rightarrow> ('a \<Rightarrow> 's \<Rightarrow> error + 's) \<Rightarrow> 's \<Rightarrow> error option \<times> 's" where
  "each [] f s = (None, s)"
| "each (x # xs) f s = (case f x s of Inl e \<Rightarrow> (Some e, s) | Inr s' \<Rightarrow> each xs f s')"

definition forEach :: "'a list js \<Rightarrow> ('a \<Rightarrow> 's \<Rightarrow> error + 's) \<Rightarrow> 's \<Rightarrow> error option \<times> 's" where
  "forEach v f s = (case v of Promise p \<Rightarrow> (Some TypeError, s) | Plain xs \<Rightarrow> each xs f s)"

definition propertyKey :: "string list js \<Rightarrow> string" where
  "propertyKey v = (case v of Plain xs \<Rightarrow> join '','' xs | Promise p \<Rightarrow> ''[object Promise]'')"

section \<open>The stored collections\<close>

text \<open>
  What \<open>Storage.get()\<close> and \<open>Storage.getArchive()\<close> read and what \<open>set\<close> and
  \<open>setArchive\<close> replace. A command returns its outcome together with the disk as it
  leaves it, so that a write made before a failure stays visible.
\<close>

record disk =
  storage :: collection
  archive :: collection

section \<open>Creating items\<close>

definition isPriorityOpt :: "string \<Rightarrow> bool" where
  "isPriorityOpt x = (x \<in> set [''p:1'', ''p:2'', ''p:3''])"

definition getPriority :: "string list \<Rightarrow> prio" where
  "getPriority desc =
     (case find isPriorityOpt desc of
        Some opt \<Rightarrow> PStr [opt ! (length opt - 1)]
      | None \<Rightarrow> PNum 1)"

record options =
  opt_boards :: "string list"
  opt_description :: string
  opt_id :: nat
  opt_priority :: prio

definition sortToken :: "string \<Rightarrow> string list \<times> string list \<Rightarrow> string list \<times> string list" where
  "sortToken x acc =
     (case acc of (bs, desc) \<Rightarrow>
        if isPriorityOpt x then (bs, desc)
        else if startsWith ''@'' x \<and> 1 < length x then (bs @ [x], desc)
        else (bs, desc @ [x]))"

definition getOptions :: "string list \<Rightarrow> disk \<Rightarrow> error + options" where
  "getOptions input d =
     (if length input = 0 then Inl MissingDesc
      else let id' = generateID (storage d);
               p = getPriority input;
               (bs, desc) = fold sortToken input ([], []);
               text = join '' '' desc;
               bs' = (if length bs = 0 then bs @ [''My Board''] else bs)
           in Inr \<lparr>opt_boards = bs', opt_description = text, opt_id = id', opt_priority = p\<rparr>)"

text \<open>
  Modelled from the spec: the reading of a priority option as the spec's integer from 1
  to 3 (default 1), which is part of the class \<open>Task\<close> (\<open>./task\<close>); the sources require
  that file but do not contain it.
\<close>

definition priorityLevel :: "prio \<Rightarrow> nat" where
  "priorityLevel p =
     (case p of PNum n \<Rightarrow> n
      | PStr s \<Rightarrow> (case digits s of Some n \<Rightarrow> n | None \<Rightarrow> 1))"

text \<open>
  Modelled from the spec: the constructor of the class \<open>Task\<close> (\<open>./task\<close>, required by
  the sources and not among them). By the spec's data model a new task takes its id,
  description and boards from the options, is not starred, has an integer priority and
  has neither of its two flags set. The creation date is read from the clock and is a
  parameter.
\<close>

definition Task :: "string \<Rightarrow> options \<Rightarrow> item" where
  "Task today opts =
     \<lparr>item_id = opt_id opts, created = today, description = opt_description opts,
      isStarred = False, boards = opt_boards opts, isTask = True, isComplete = False,
      inProgress = False, priority = Some (PNum (priorityLevel (opt_priority opts)))\<rparr>"

text \<open>
  Modelled from the spec: the constructor of the class \<open>Note\<close> (\<open>./note\<close>, required by
  the sources and not among them). By the spec's data model a note has the fields of an
  item only: no priority and no flags.
\<close>

definition Note :: "string \<Rightarrow> options \<Rightarrow> item" where
  "Note today opts =
     \<lparr>item_id = opt_id opts, created = today, description = opt_description opts,
      isStarred = False, boards = opt_boards opts, isTask = False, isComplete = False,
      inProgress = False, priority = None\<rparr>"

definition createTask :: "string \<Rightarrow> string list \<Rightarrow> disk \<Rightarrow> (error + item) \<times> disk" where
  "createTask today desc d =
     (case getOptions desc d of
        Inl e \<Rightarrow> (Inl e, d)
      | Inr opts \<Rightarrow>
          let task = Task today opts;
              data = setKey (opt_id opts) task (storage d)
          in (Inr task, d\<lparr>storage := data\<rparr>))"

definition createNote :: "string \<Rightarrow> string list \<Rightarrow> disk \<Rightarrow> (error + item) \<times> disk" where
  "createNote today desc d =
     (case getOptions desc d of
        Inl e \<Rightarrow> (Inl e, d)
      | Inr opts \<Rightarrow>
          let note = Note today opts;
              data = setKey (opt_id opts) note (storage d)
          in (Inr note, d\<lparr>storage := data\<rparr>))"

section \<open>Commands on a list of ids\<close>

text \<open>
  The loop bodies. Each reads \<open>_data[id]\<close> first, so an id that names no entry raises
  \<open>TypeError\<close> before the body changes anything.
\<close>

type_synonym buckets = "collection \<times> string list \<times> string list"

definition checkStep :: "string \<Rightarrow> buckets \<Rightarrow> error + buckets" where
  "checkStep id' s =
     (case s of (data, checked, unchecked) \<Rightarrow>
        (case lookup data id' of
           None \<Rightarrow> Inl TypeError
         | Some (k, it) \<Rightarrow>
             if isTask it then
               let it1 = it\<lparr>inProgress := False\<rparr>;
                   it2 = it1\<lparr>isComplete := \<not> isComplete it1\<rparr>;
                   data' = setKey k it2 data
               in (if isComplete it2 then Inr (data', checked @ [id'], unchecked)
                   else Inr (data', checked, unchecked @ [id']))
             else Inr (data, checked, unchecked)))"

definition beginStep :: "string \<Rightarrow> buckets \<Rightarrow> error + buckets" where
  "beginStep id' s =
     (case s of (data, started, paused) \<Rightarrow>
        (case lookup data id' of
           None \<Rightarrow> Inl TypeError
         | Some (k, it) \<Rightarrow>
             if isTask it then
               let it1 = it\<lparr>isComplete := False\<rparr>;
                   it2 = it1\<lparr>inProgress := \<not> inProgress it1\<rparr>;
                   data' = setKey k it2 data
               in (if inProgress it2 then Inr (data', started @ [id'], paused)
                   else Inr (data', started, paused @ [id']))
             else Inr (data, started, paused)))"

definition starStep :: "string \<Rightarrow> buckets \<Rightarrow> error + buckets" where
  "starStep id' s =
     (case s of (data, starred, unstarred) \<Rightarrow>
        (case lookup data id' of
           None \<Rightarrow> Inl TypeError
         | Some (k, it) \<Rightarrow>
             let it1 = it\<lparr>isStarred := \<not> isStarred it\<rparr>;
                 data' = setKey k it1 data
             in (if isStarred it1 then Inr (data', starred @ [id'], unstarred)
                 else Inr (data', starred, unstarred @ [id']))))"

definition checkTasks :: "number \<Rightarrow> string list \<Rightarrow> disk \<Rightarrow> (error + string list \<times> string list) \<times> disk" where
  "checkTasks num ids d =
     (case validateIDs num ids (getIDs (storage d)) of
        Inl e \<Rightarrow> (Inl e, d)
      | Inr ids' \<Rightarrow>
          (case forEach (Plain ids') checkStep (storage d, [], []) of
             (Some e, s) \<Rightarrow> (Inl e, d)
           | (None, data, checked, unchecked) \<Rightarrow>
               (Inr (checked, unchecked), d\<lparr>storage := data\<rparr>)))"

text \<open>
  \<open>beginTasks\<close> calls \<open>_validateIDs\<close> without \<open>await\<close>. The validation still runs
  and ends the process on a bad id list; otherwise \<open>ids\<close> is a Promise when the loop is
  reached.
\<close>

definition beginTasks :: "number \<Rightarrow> string list \<Rightarrow> disk \<Rightarrow> (error + string list \<times> string list) \<times> disk" where
  "beginTasks num ids d =
     (case validateIDs num ids (getIDs (storage d)) of
        Inl e \<Rightarrow> (Inl e, d)
      | Inr ids' \<Rightarrow>
          (case forEach (Promise ids') beginStep (storage d, [], []) of
             (Some e, s) \<Rightarrow> (Inl e, d)
           | (None, data, started, paused) \<Rightarrow>
               (Inr (started, paused), d\<lparr>storage := data\<rparr>)))"

definition starItems :: "number \<Rightarrow> string list \<Rightarrow> disk \<Rightarrow> (error + string list \<times> string list) \<times> disk" where
  "starItems num ids d =
     (case validateIDs num ids (getIDs (storage d)) of
        Inl e \<Rightarrow> (Inl e, d)
      | Inr ids' \<Rightarrow>
          (case forEach (Plain ids') starStep (storage d, [], []) of
             (Some e, s) \<Rightarrow> (Inl e, d)
           | (None, data, starred, unstarred) \<Rightarrow>
               (Inr (starred, unstarred), d\<lparr>storage := data\<rparr>)))"

text \<open>
  \<open>_saveItemToArchive\<close> reads the archive, gives the item the next archive id, and
  writes the archive back, once per id; the storage is written once, after the loop.
\<close>

definition saveItemToArchive :: "item \<Rightarrow> disk \<Rightarrow> disk" where
  "saveItemToArchive it d =
     (let arch = archive d;
          archiveID = generateID arch;
          it' = it\<lparr>item_id := archiveID\<rparr>
      in d\<lparr>archive := setKey archiveID it' arch\<rparr>)"

definition deleteStep :: "string \<Rightarrow> collection \<times> disk \<Rightarrow> error + collection \<times> disk" where
  "deleteStep id' s =
     (case s of (data, d) \<Rightarrow>
        (case lookup data id' of
           None \<Rightarrow> Inl TypeError
         | Some (k, it) \<Rightarrow> Inr (deleteKey k data, saveItemToArchive it d)))"

definition deleteItems :: "number \<Rightarrow> string list \<Rightarrow> disk \<Rightarrow> (error + string list) \<times> disk" where
  "deleteItems num ids d =
     (case validateIDs num ids (getIDs (storage d)) of
        Inl e \<Rightarrow> (Inl e, d)
      | Inr ids' \<Rightarrow>
          (case forEach (Plain ids') deleteStep (storage d, d) of
             (Some e, data, d') \<Rightarrow> (Inl e, d')
           | (None, data, d') \<Rightarrow> (Inr ids', d'\<lparr>storage := data\<rparr>)))"

text \<open>
  \<open>restoreItems\<close> validates against the ids of the archive, again without \<open>await\<close>.
  The validation has been given its second argument and so runs to its end inside the
  call; \<open>ids\<close> is then a Promise, and \<open>ids.forEach\<close> raises \<open>TypeError\<close> before
  the loop body, which is never run and is not modelled.
\<close>

definition restoreItems :: "number \<Rightarrow> string list \<Rightarrow> disk \<Rightarrow> (error + string list) \<times> disk" where
  "restoreItems num ids d =
     (case validateIDs num ids (getIDs (archive d)) of
        Inl e \<Rightarrow> (Inl e, d)
      | Inr ids' \<Rightarrow> (Inl TypeError, d))"

definition clear :: "number \<Rightarrow> disk \<Rightarrow> (error + string list) \<times> disk" where
  "clear num d =
     (let ids = objectKeys (filter (\<lambda>e. isComplete (snd e)) (storage d))
      in if length ids = 0 then (Inr [], d) else deleteItems num ids d)"

section \<open>Commands on one target\<close>

definition boardName :: "string \<Rightarrow> string" where
  "boardName x = (if x = ''myboard'' then ''My Board'' else ''@'' @ x)"

definition moveBoards :: "number \<Rightarrow> string list \<Rightarrow> disk \<Rightarrow> (error + string list \<times> string list) \<times> disk" where
  "moveBoards num input d =
     (let targets = filter (startsWith ''@'') input
      in if length targets = 0 then (Inl MissingID, d)
         else if 1 < length targets then (Inl InvalidIDsNumber, d)
         else let target = hd targets
              in (case validateID num (removeFirst (CHR ''@'') target) (getIDs (storage d)) of
                    Inl e \<Rightarrow> (Inl e, d)
                  | Inr id' \<Rightarrow>
                      let bs = map boardName (filter (\<lambda>x. x \<noteq> target) input)
                      in if length bs = 0 then (Inl MissingBoards, d)
                         else let bs' = removeDuplicates bs
                              in (case lookup (storage d) (propertyKey (Plain id')) of
                                    None \<Rightarrow> (Inl TypeError, d)
                                  | Some (k, it) \<Rightarrow>
                                      (Inr (id', bs'),
                                       d\<lparr>storage := setKey k (it\<lparr>boards := bs'\<rparr>) (storage d)\<rparr>))))"

definition updatePriority :: "number \<Rightarrow> string list \<Rightarrow> disk \<Rightarrow> (error + string list \<times> string) \<times> disk" where
  "updatePriority num input d =
     (case find (\<lambda>x. x \<in> set [''1'', ''2'', ''3'']) input of
        None \<Rightarrow> (Inl InvalidPriority, d)
      | Some level \<Rightarrow>
          let targets = filter (startsWith ''@'') input
          in if length targets = 0 then (Inl MissingID, d)
             else if 1 < length targets then (Inl InvalidIDsNumber, d)
             else let target = hd targets
                  in (case validateID num (removeFirst (CHR ''@'') target) (getIDs (storage d)) of
                        Inl e \<Rightarrow> (Inl e, d)
                      | Inr id' \<Rightarrow>
                          (case lookup (storage d) (propertyKey (Plain id')) of
                             None \<Rightarrow> (Inl TypeError, d)
                           | Some (k, it) \<Rightarrow>
                               (Inr (id', level),
                                d\<lparr>storage := setKey k (it\<lparr>priority := Some (PStr level)\<rparr>) (storage d)\<rparr>))))"

text \<open>
  \<open>editDescription\<close> does not await the validation either. The check of the new
  description comes first; a failed validation then ends the process; otherwise \<open>id\<close>
  is a Promise, \<open>_data[id]\<close> is \<open>undefined\<close> and the assignment raises
  \<open>TypeError\<close>.
\<close>

definition editDescription :: "number \<Rightarrow> string list \<Rightarrow> disk \<Rightarrow> (error + string list) \<times> disk" where
  "editDescription num input d =
     (let targets = filter (startsWith ''@'') input
      in if length targets = 0 then (Inl MissingID, d)
         else if 1 < length targets then (Inl InvalidIDsNumber, d)
         else let target = hd targets;
                  newDesc = join '' '' (filter (\<lambda>x. x \<noteq> target) input)
              in if length newDesc = 0 then (Inl MissingDesc, d)
                 else (case validateID num (removeFirst (CHR ''@'') target) (getIDs (storage d)) of
                         Inl e \<Rightarrow> (Inl e, d)
                       | Inr id' \<Rightarrow>
                           (case lookup (storage d) (propertyKey (Promise id')) of
                              None \<Rightarrow> (Inl TypeError, d)
                            | Some (k, it) \<Rightarrow>
                                (Inr id',
                                 d\<lparr>storage := setKey k (it\<lparr>description := newDesc\<rparr>) (storage d)\<rparr>))))"

section \<open>All commands\<close>

datatype command =
    CreateTask "string list"
  | CreateNote "string list"
  | CheckTasks "string list"
  | BeginTasks "string list"
  | StarItems "string list"
  | MoveBoards "string list"
  | EditDescription "string list"
  | UpdatePriority "string list"
  | DeleteItems "string list"
  | RestoreItems "string list"
  | Clear

fun run :: "number \<Rightarrow> string \<Rightarrow> command \<Rightarrow> disk \<Rightarrow> disk" where
  "run num today (CreateTask desc) d = snd (createTask today desc d)"
| "run num today (CreateNote desc) d = snd (createNote today desc d)"
| "run num today (CheckTasks ids) d = snd (checkTasks num ids d)"
| "run num today (BeginTasks ids) d = snd (beginTasks num ids d)"
| "run num today (StarItems ids) d = snd (starItems num ids d)"
| "run num today (MoveBoards input) d = snd (moveBoards num input d)"
| "run num today (EditDescription input) d = snd (editDescription num input d)"
| "run num today (UpdatePriority input) d = snd (updatePriority num input d)"
| "run num today (DeleteItems ids) d = snd (deleteItems num ids d)"
| "run num today (RestoreItems ids) d = snd (restoreItems num ids d)"
| "run num today Clear d = snd (clear num d)"

section \<open>Filtering, grouping and searching\<close>

text \<open>
  The filters delete properties of the object they are handed and return that object, so
  objects are kept in a heap and named by references. Reading the storage yields a new
  object each time. Where a function is called without its \<open>data\<close> argument it reads
  the storage itself.
\<close>

type_synonym ref = nat
type_synonym heap = "collection list"

definition fetch :: "ref option \<Rightarrow> disk \<Rightarrow> heap \<Rightarrow> ref \<times> heap" where
  "fetch arg d h = (case arg of None \<Rightarrow> (length h, h @ [storage d]) | Some r \<Rightarrow> (r, h))"

text \<open>
  The loop shared by the six filters: for each key of the object, in turn,
  \<open>delete data[id]\<close> where the condition holds of \<open>data[id]\<close>.
\<close>

definition deleteWhere :: "(item \<Rightarrow> bool) \<Rightarrow> collection \<Rightarrow> collection" where
  "deleteWhere cond data =
     fold (\<lambda>k acc. case map_of acc k of
                      None \<Rightarrow> acc
                    | Some it \<Rightarrow> if cond it then deleteKey k acc else acc)
       (getIDs data) data"

definition filterTask :: "ref \<Rightarrow> heap \<Rightarrow> ref \<times> heap" where
  "filterTask r h = (r, h[r := deleteWhere (\<lambda>it. \<not> isTask it) (h ! r)])"

definition filterStarred :: "ref \<Rightarrow> heap \<Rightarrow> ref \<times> heap" where
  "filterStarred r h = (r, h[r := deleteWhere (\<lambda>it. \<not> isStarred it) (h ! r)])"

definition filterInProgress :: "ref \<Rightarrow> heap \<Rightarrow> ref \<times> heap" where
  "filterInProgress r h =
     (r, h[r := deleteWhere (\<lambda>it. \<not> isTask it \<or> \<not> inProgress it) (h ! r)])"

definition filterComplete :: "ref \<Rightarrow> heap \<Rightarrow> ref \<times> heap" where
  "filterComplete r h =
     (r, h[r := deleteWhere (\<lambda>it. \<not> isTask it \<or> \<not> isComplete it) (h ! r)])"

definition filterPending :: "ref \<Rightarrow> heap \<Rightarrow> ref \<times> heap" where
  "filterPending r h =
     (r, h[r := deleteWhere (\<lambda>it. \<not> isTask it \<or> isComplete it) (h ! r)])"

definition filterNote :: "ref \<Rightarrow> heap \<Rightarrow> ref \<times> heap" where
  "filterNote r h = (r, h[r := deleteWhere (\<lambda>it. isTask it) (h ! r)])"

definition attributeStep :: "string \<Rightarrow> ref \<times> heap \<Rightarrow> ref \<times> heap" where
  "attributeStep x s =
     (case s of (r, h) \<Rightarrow>
        if x \<in> set [''star'', ''starred''] then filterStarred r h
        else if x \<in> set [''done'', ''checked'', ''complete''] then filterComplete r h
        else if x \<in> set [''progress'', ''started'', ''begun''] then filterInProgress r h
        else if x \<in> set [''pending'', ''unchecked'', ''incomplete''] then filterPending r h
        else if x \<in> set [''todo'', ''task'', ''tasks''] then filterTask r h
        else if x \<in> set [''note'', ''notes''] then filterNote r h
        else (r, h))"

definition filterByAttributes :: "string list \<Rightarrow> ref option \<Rightarrow> disk \<Rightarrow> heap \<Rightarrow> ref \<times> heap" where
  "filterByAttributes attr arg d h =
     (case fetch arg d h of (r, h1) \<Rightarrow>
        if length (getIDs (h1 ! r)) = 0 then (r, h1)
        else fold attributeStep attr (r, h1))"

text \<open>A grouping is an object with string keys, enumerated in the order of insertion.\<close>

type_synonym grouping = "(string \<times> item list) list"

definition pushInto :: "string \<Rightarrow> item \<Rightarrow> grouping \<Rightarrow> grouping" where
  "pushInto k it grouped =
     (if k \<in> set (map fst grouped)
      then map (\<lambda>g. if fst g = k then (fst g, snd g @ [it]) else g) grouped
      else grouped @ [(k, [it])])"

definition getBoards :: "disk \<Rightarrow> string list" where
  "getBoards d =
     fold (\<lambda>e bs. bs @ filter (\<lambda>x. x \<notin> set bs) (boards (snd e))) (storage d) [''My Board'']"

definition getDates :: "collection \<Rightarrow> string list" where
  "getDates data =
     fold (\<lambda>e ds. if created (snd e) \<notin> set ds then ds @ [created (snd e)] else ds) data []"

definition groupByBoard :: "ref option \<Rightarrow> string list \<Rightarrow> disk \<Rightarrow> heap \<Rightarrow> grouping \<times> heap" where
  "groupByBoard arg bs d h =
     (case fetch arg d h of (r, h1) \<Rightarrow>
        let bs' = (if length bs = 0 then getBoards d else bs);
            grouped =
              fold (\<lambda>e g. fold (\<lambda>b g'. if b \<in> set (boards (snd e)) then pushInto b (snd e) g' else g') bs' g)
                (h1 ! r) []
        in (grouped, h1))"

definition groupByDate :: "ref option \<Rightarrow> string list option \<Rightarrow> disk \<Rightarrow> heap \<Rightarrow> grouping \<times> heap" where
  "groupByDate arg dates d h =
     (case fetch arg d h of (r, h1) \<Rightarrow>
        let dates' = (case dates of None \<Rightarrow> getDates (storage d) | Some ds \<Rightarrow> ds);
            grouped =
              fold (\<lambda>e g. fold (\<lambda>dt g'. if created (snd e) = dt then pushInto dt (snd e) g' else g') dates' g)
                (h1 ! r) []
        in (grouped, h1))"

text \<open>
  \<open>indexOf(t) > -1\<close> on strings. Lower-casing follows the locale and is a parameter.
  \<open>_hasTerms\<close> returns the description itself on a match, so a match on the empty
  description is falsy.
\<close>

fun contains :: "string \<Rightarrow> string \<Rightarrow> bool" where
  "contains t [] = (t = [])"
| "contains t (c # cs) = (startsWith t (c # cs) \<or> contains t cs)"

definition hasTerms :: "(string \<Rightarrow> string) \<Rightarrow> string \<Rightarrow> string list \<Rightarrow> string option" where
  "hasTerms lower str terms =
     (if list_ex (\<lambda>t. contains (lower t) (lower str)) terms then Some str else None)"

definition truthy :: "string option \<Rightarrow> bool" where
  "truthy v = (case v of None \<Rightarrow> False | Some s \<Rightarrow> s \<noteq> [])"

definition findItems :: "(string \<Rightarrow> string) \<Rightarrow> string list \<Rightarrow> disk \<Rightarrow> heap \<Rightarrow> grouping \<times> heap" where
  "findItems lower terms d h =
     (let found =
            fold (\<lambda>e res. if truthy (hasTerms lower (description (snd e)) terms)
                           then setKey (fst e) (snd e) res else res)
              (storage d) [];
          h1 = h @ [storage d];
          h2 = h1 @ [found]
      in groupByBoard (Some (length h1)) [] d h2)"

text \<open>The items an attribute keeps: the complement of what its filter deletes.\<close>

definition keeps :: "string \<Rightarrow> item \<Rightarrow> bool" where
  "keeps x it =
     (if x \<in> set [''star'', ''starred''] then isStarred it
      else if x \<in> set [''done'', ''checked'', ''complete''] then isTask it \<and> isComplete it
      else if x \<in> set [''progress'', ''started'', ''begun''] then isTask it \<and> inProgress it
      else if x \<in> set [''pending'', ''unchecked'', ''incomplete''] then isTask it \<and> \<not> isComplete it
      else if x \<in> set [''todo'', ''task'', ''tasks''] then isTask it
      else if x \<in> set [''note'', ''notes''] then \<not> isTask it
      else True)"

section \<open>The remote backend\<close>

text \<open>
  The configuration values may be absent; an absent and an empty value are both falsy.
  A request either rejects with a message (no connection, a timeout, a status outside
  2xx) or resolves; for a GET the answer is the \<open>value\<close> member of the body when it has
  one. \<open>JSON.parse\<close> is a parameter, \<open>None\<close> where it throws. Each function returns
  the requests it has sent next to its result.
\<close>

record config =
  useDynamo :: bool
  dynamoBaseUrl :: "string option"
  dynamoToken :: "string option"
  dynamoNamespace :: "string option"

datatype verb = GET | PUT

record request =
  req_verb :: verb
  req_base :: string
  req_token :: string
  req_path :: string
  req_body :: "collection option"

datatype 'a reply = Rejected string | Resolved 'a

type_synonym transport = "request \<Rightarrow> string option reply"

definition missing :: "string option \<Rightarrow> bool" where
  "missing v = (case v of None \<Rightarrow> True | Some s \<Rightarrow> s = [])"

definition checkAndGetDynamoInstance :: "config \<Rightarrow> error + unit" where
  "checkAndGetDynamoInstance cfg =
     (if missing (dynamoBaseUrl cfg) then Inl (MissingConfig ''dynamoBaseUrl'')
      else if missing (dynamoToken cfg) then Inl (MissingConfig ''dynamoToken'')
      else if missing (dynamoNamespace cfg) then Inl (MissingConfig ''dynamoNamespace'')
      else Inr ())"

definition storagePath :: "config \<Rightarrow> string" where
  "storagePath cfg = ''/api/'' @ the (dynamoNamespace cfg) @ ''/'' @ ''storage.json''"

definition requestFor :: "verb \<Rightarrow> config \<Rightarrow> collection option \<Rightarrow> request" where
  "requestFor v cfg b =
     \<lparr>req_verb = v, req_base = the (dynamoBaseUrl cfg), req_token = the (dynamoToken cfg),
      req_path = storagePath cfg, req_body = b\<rparr>"

definition getFromDynamo :: "(string \<Rightarrow> collection option) \<Rightarrow> config \<Rightarrow> transport \<Rightarrow> (error + collection) \<times> request list" where
  "getFromDynamo parse cfg http =
     (case checkAndGetDynamoInstance cfg of
        Inl e \<Rightarrow> (Inl e, [])
      | Inr inst \<Rightarrow>
          let req = requestFor GET cfg None
          in (case http req of
                Rejected err \<Rightarrow> (Inr [], [req])
              | Resolved v \<Rightarrow>
                  (case v of
                     None \<Rightarrow> (Inr [], [req])
                   | Some s \<Rightarrow>
                       if s = [] then (Inr [], [req])
                       else (case parse s of
                               None \<Rightarrow> (Inr [], [req])
                             | Some data \<Rightarrow> (Inr data, [req])))))"

definition setToDynamo :: "config \<Rightarrow> collection \<Rightarrow> transport \<Rightarrow> (error + unit) \<times> request list" where
  "setToDynamo cfg data http =
     (case checkAndGetDynamoInstance cfg of
        Inl e \<Rightarrow> (Inl e, [])
      | Inr inst \<Rightarrow>
          let req = requestFor PUT cfg (Some data)
          in (case http req of
                Rejected err \<Rightarrow> (Inr (), [req])
              | Resolved v \<Rightarrow> (Inr (), [req])))"

section \<open>The flags of a task\<close>

definition bothFlags :: "item \<Rightarrow> bool" where
  "bothFlags it = (isTask it \<and> isComplete it \<and> inProgress it)"

definition exclusive :: "collection \<Rightarrow> bool" where
  "exclusive data = (\<not> list_ex (\<lambda>e. bothFlags (snd e)) data)"

definition exclusiveDisk :: "disk \<Rightarrow> bool" where
  "exclusiveDisk d = (exclusive (storage d) \<and> exclusive (archive d))"

section \<open>Example data\<close>

definition taskA :: item where
  "taskA = \<lparr>item_id = 1, created = ''Mon Jan 01 2024'', description = ''a'', isStarred = False,
     boards = [''My Board''], isTask = True, isComplete = False, inProgress = False,
     priority = Some (PNum 1)\<rparr>"

definition noteB :: item where
  "noteB = \<lparr>item_id = 2, created = ''Mon Jan 01 2024'', description = ''b'', isStarred = False,
     boards = [''My Board''], isTask = False, isComplete = False, inProgress = False,
     priority = None\<rparr>"

section \<open>Properties\<close>

subsection \<open>Id allocation\<close>

lemma mathMax_Max:
  assumes "ids \<noteq> []"
  shows "mathMax ids = Max (set ids)"
proof (cases ids)
  case Nil
  with assms show ?thesis by simp
next
  case (Cons a rest)
  have "Max (set (a # rest)) = fold max rest a"
    by (rule Max.set_eq_fold)
  with Cons show ?thesis
    by (simp add: mathMax_def)
qed

lemma generateID_fresh: "generateID data \<notin> set (getIDs data)"
proof (cases "data = []")
  case True
  then show ?thesis by (simp add: getIDs_def)
next
  case False
  then have ne: "getIDs data \<noteq> []" by (simp add: getIDs_def)
  then have "generateID data = Max (set (getIDs data)) + 1"
    by (simp add: generateID_def mathMax_Max)
  moreover have "\<forall>k \<in> set (getIDs data). k \<le> Max (set (getIDs data))" by simp
  ultimately show ?thesis by fastforce
qed



subsection \<open>Id validation\<close>













text \<open>
  Three commands never reach their write; two more write only when they succeed.
\<close>

lemma beginTasks_never_writes: "\<exists>e. beginTasks num ids d = (Inl e, d)"
  by (cases "validateIDs num ids (getIDs (storage d))")
     (simp_all add: beginTasks_def forEach_def)

lemma restoreItems_never_writes: "\<exists>e. restoreItems num ids d = (Inl e, d)"
  by (cases "validateIDs num ids (getIDs (archive d))")
     (simp_all add: restoreItems_def)







subsection \<open>Checking, beginning, deleting and restoring one item\<close>

lemma map_of_setKey: "map_of (setKey k v data) k = Some v"
  by (induction data) auto

lemma setKey_setKey: "setKey k v (setKey k w data) = setKey k v data"
  by (induction data) auto

lemma lookup_setKey: "keyOf i = Some k \<Longrightarrow> lookup (setKey k v data) i = Some (k, v)"
  by (simp add: lookup_def map_of_setKey)

lemma lookup_keyOf: "lookup data i = Some (k, it) \<Longrightarrow> keyOf i = Some k \<and> map_of data k = Some it"
  by (auto simp: lookup_def split: option.splits)

lemma lookup_present:
  assumes "lookup data i = Some (k, it)" and "num i = Some k"
  shows "\<not> absent num (getIDs data) i"
proof -
  from assms(1) have "map_of data k = Some it" by (simp add: lookup_keyOf)
  then have "(k, it) \<in> set data" by (rule map_of_SomeD)
  then have "k \<in> set (getIDs data)" by (force simp: getIDs_def)
  with assms(2) show ?thesis by (simp add: absent_def)
qed

lemma validateIDs_single:
  assumes "lookup data i = Some (k, it)" and "num i = Some k"
  shows "validateIDs num [i] (getIDs data) = Inr [i]"
  using lookup_present [of data i k it num] assms
  by (simp add: validateIDs_def removeDuplicates_def)

lemma checkTasks_single:
  assumes "lookup (storage d) i = Some (k, it)" and "num i = Some k"
  shows "checkTasks num [i] d =
     (if isTask it
      then (Inr (if isComplete it then ([], [i]) else ([i], [])),
            d\<lparr>storage := setKey k (it\<lparr>inProgress := False, isComplete := \<not> isComplete it\<rparr>) (storage d)\<rparr>)
      else (Inr ([], []), d))"
  using assms validateIDs_single [of "storage d" i k it num]
  by (simp add: checkTasks_def forEach_def checkStep_def Let_def)

lemma checkTasks_twice:
  assumes "lookup (storage d) i = Some (k, it)" and "num i = Some k" and "isTask it"
  shows "\<exists>r1 d1 r2 d2.
           checkTasks num [i] d = (Inr r1, d1) \<and>
           lookup (storage d1) i = Some (k, it\<lparr>inProgress := False, isComplete := \<not> isComplete it\<rparr>) \<and>
           checkTasks num [i] d1 = (Inr r2, d2) \<and>
           lookup (storage d2) i = Some (k, it\<lparr>inProgress := False\<rparr>)"
proof -
  let ?it1 = "it\<lparr>inProgress := False, isComplete := \<not> isComplete it\<rparr>"
  let ?d1 = "d\<lparr>storage := setKey k ?it1 (storage d)\<rparr>"
  let ?it2 = "?it1\<lparr>inProgress := False, isComplete := \<not> isComplete ?it1\<rparr>"
  let ?d2 = "?d1\<lparr>storage := setKey k ?it2 (storage ?d1)\<rparr>"
  from assms(1) have key: "keyOf i = Some k" by (simp add: lookup_keyOf)
  from assms have 1: "checkTasks num [i] d =
      (Inr (if isComplete it then ([], [i]) else ([i], [])), ?d1)"
    by (simp add: checkTasks_single)
  from key have l1: "lookup (storage ?d1) i = Some (k, ?it1)" by (simp add: lookup_setKey)
  from assms(3) have t1: "isTask ?it1" by simp
  from checkTasks_single [of ?d1 i k ?it1 num] l1 assms(2) t1 have 2: "checkTasks num [i] ?d1 =
      (Inr (if isComplete ?it1 then ([], [i]) else ([i], [])), ?d2)"
    by simp
  from key have "lookup (storage ?d2) i = Some (k, ?it2)" by (simp add: lookup_setKey)
  moreover have "?it2 = it\<lparr>inProgress := False\<rparr>" by simp
  ultimately have l2: "lookup (storage ?d2) i = Some (k, it\<lparr>inProgress := False\<rparr>)" by simp
  from 1 l1 2 l2 show ?thesis by blast
qed

lemma deleteItems_single:
  assumes "lookup (storage d) i = Some (k, it)" and "num i = Some k"
  shows "deleteItems num [i] d =
     (Inr [i],
      \<lparr>storage = deleteKey k (storage d),
       archive = setKey (generateID (archive d)) (it\<lparr>item_id := generateID (archive d)\<rparr>) (archive d)\<rparr>)"
  using assms validateIDs_single [of "storage d" i k it num]
  by (simp add: deleteItems_def forEach_def deleteStep_def saveItemToArchive_def Let_def)

text \<open>
  C4 at a failing input. \<open>beginTasks\<close> on a completed task: the loop is applied to a
  Promise, the command ends in \<open>TypeError\<close> and the task is still complete; indeed
  \<open>beginTasks\<close> ends in an error, with nothing written, on every input. The same id
  given to \<open>checkTasks\<close> twice does return the task to where it was.
\<close>

theorem beginTasks_on_complete_task:
  "beginTasks digits [''1''] \<lparr>storage = [(1, taskA\<lparr>isComplete := True\<rparr>)], archive = []\<rparr>
     = (Inl TypeError, \<lparr>storage = [(1, taskA\<lparr>isComplete := True\<rparr>)], archive = []\<rparr>) \<and>
   (\<exists>e. beginTasks num ids d = (Inl e, d)) \<and>
   checkTasks digits [''1''] \<lparr>storage = [(1, taskA\<lparr>inProgress := True\<rparr>)], archive = []\<rparr>
     = (Inr ([''1''], []), \<lparr>storage = [(1, taskA\<lparr>isComplete := True\<rparr>)], archive = []\<rparr>) \<and>
   checkTasks digits [''1''] \<lparr>storage = [(1, taskA\<lparr>isComplete := True\<rparr>)], archive = []\<rparr>
     = (Inr ([], [''1'']), \<lparr>storage = [(1, taskA)], archive = []\<rparr>)"
proof -
  have "beginTasks digits [''1''] \<lparr>storage = [(1, taskA\<lparr>isComplete := True\<rparr>)], archive = []\<rparr>
     = (Inl TypeError, \<lparr>storage = [(1, taskA\<lparr>isComplete := True\<rparr>)], archive = []\<rparr>)"
    by code_simp
  moreover have "checkTasks digits [''1''] \<lparr>storage = [(1, taskA\<lparr>inProgress := True\<rparr>)], archive = []\<rparr>
     = (Inr ([''1''], []), \<lparr>storage = [(1, taskA\<lparr>isComplete := True\<rparr>)], archive = []\<rparr>)"
    by code_simp
  moreover have "checkTasks digits [''1''] \<lparr>storage = [(1, taskA\<lparr>isComplete := True\<rparr>)], archive = []\<rparr>
     = (Inr ([], [''1'']), \<lparr>storage = [(1, taskA)], archive = []\<rparr>)"
    by code_simp
  ultimately show ?thesis
    using beginTasks_never_writes [of num ids d] by blast
qed

text \<open>
  C10 at a failing input. \<open>checkTasks\<close> on the id of a note succeeds, changes nothing
  and fills neither bucket; \<open>beginTasks\<close> on the same id ends in \<open>TypeError\<close>.
\<close>

theorem beginTasks_on_note:
  "checkTasks digits [''2''] \<lparr>storage = [(1, taskA), (2, noteB)], archive = []\<rparr>
     = (Inr ([], []), \<lparr>storage = [(1, taskA), (2, noteB)], archive = []\<rparr>) \<and>
   beginTasks digits [''2''] \<lparr>storage = [(1, taskA), (2, noteB)], archive = []\<rparr>
     = (Inl TypeError, \<lparr>storage = [(1, taskA), (2, noteB)], archive = []\<rparr>)"
  by code_simp

text \<open>
  C8 at a failing input. Deleting item 1 stores it in the archive under the next archive
  id, 4, with its other fields as they were. Restoring id 4 passes validation and then
  ends in \<open>TypeError\<close>: the item stays in the archive and the storage stays empty.
  \<open>restoreItems\<close> ends in an error, with nothing written, on every input.
\<close>

theorem restoreItems_restores_nothing:
  "deleteItems digits [''1''] \<lparr>storage = [(1, taskA)], archive = [(3, noteB)]\<rparr>
     = (Inr [''1''], \<lparr>storage = [], archive = [(3, noteB), (4, taskA\<lparr>item_id := 4\<rparr>)]\<rparr>) \<and>
   restoreItems digits [''4''] \<lparr>storage = [], archive = [(3, noteB), (4, taskA\<lparr>item_id := 4\<rparr>)]\<rparr>
     = (Inl TypeError, \<lparr>storage = [], archive = [(3, noteB), (4, taskA\<lparr>item_id := 4\<rparr>)]\<rparr>) \<and>
   (\<exists>e. restoreItems num ids d = (Inl e, d))"
proof -
  have "deleteItems digits [''1''] \<lparr>storage = [(1, taskA)], archive = [(3, noteB)]\<rparr>
     = (Inr [''1''], \<lparr>storage = [], archive = [(3, noteB), (4, taskA\<lparr>item_id := 4\<rparr>)]\<rparr>)"
    by code_simp
  moreover have "restoreItems digits [''4''] \<lparr>storage = [], archive = [(3, noteB), (4, taskA\<lparr>item_id := 4\<rparr>)]\<rparr>
     = (Inl TypeError, \<lparr>storage = [], archive = [(3, noteB), (4, taskA\<lparr>item_id := 4\<rparr>)]\<rparr>)"
    by code_simp
  ultimately show ?thesis
    using restoreItems_never_writes [of num ids d] by blast
qed

subsection \<open>The two flags of a task\<close>

lemma exclusive_iff: "exclusive data = (\<forall>e \<in> set data. \<not> bothFlags (snd e))"
  by (simp add: exclusive_def list_ex_iff)

lemma exclusive_setKey:
  "\<not> bothFlags v \<Longrightarrow> exclusive data \<Longrightarrow> exclusive (setKey k v data)"
  by (induction data) (auto simp: exclusive_def split: if_splits)

lemma exclusive_deleteKey: "exclusive data \<Longrightarrow> exclusive (deleteKey k data)"
  by (simp add: exclusive_iff deleteKey_def)

lemma exclusive_lookup:
  assumes "exclusive data" and "lookup data i = Some (k, it)"
  shows "\<not> bothFlags it"
proof -
  from assms(2) have "map_of data k = Some it"
    by (auto simp: lookup_def split: option.splits)
  then have "(k, it) \<in> set data" by (rule map_of_SomeD)
  with assms(1) show ?thesis by (auto simp: exclusive_iff)
qed

lemma each_preserves:
  assumes step: "\<And>x s s'. P s \<Longrightarrow> f x s = Inr s' \<Longrightarrow> P s'"
  shows "P s \<Longrightarrow> P (snd (each xs f s))"
proof (induction xs arbitrary: s)
  case Nil
  then show ?case by simp
next
  case (Cons x xs)
  show ?case
  proof (cases "f x s")
    case (Inl e)
    with Cons.prems show ?thesis by simp
  next
    case (Inr s')
    with Cons.prems have "P s'" by (auto intro: step)
    then have "P (snd (each xs f s'))" by (rule Cons.IH)
    with Inr show ?thesis by simp
  qed
qed

lemma forEach_preserves:
  assumes step: "\<And>x s s'. P s \<Longrightarrow> f x s = Inr s' \<Longrightarrow> P s'"
  shows "P s \<Longrightarrow> P (snd (forEach v f s))"
  using each_preserves [of P f s, OF step]
  by (cases v) (simp_all add: forEach_def)

lemma checkStep_exclusive:
  "exclusive (fst s) \<Longrightarrow> checkStep i s = Inr s' \<Longrightarrow> exclusive (fst s')"
  by (cases s)
     (auto simp: checkStep_def Let_def bothFlags_def intro!: exclusive_setKey
           split: option.splits if_splits)

lemma beginStep_exclusive:
  "exclusive (fst s) \<Longrightarrow> beginStep i s = Inr s' \<Longrightarrow> exclusive (fst s')"
  by (cases s)
     (auto simp: beginStep_def Let_def bothFlags_def intro!: exclusive_setKey
           split: option.splits if_splits)

lemma starStep_exclusive:
  assumes "exclusive (fst s)" and "starStep i s = Inr s'"
  shows "exclusive (fst s')"
proof -
  obtain data a b where s: "s = (data, a, b)" by (cases s)
  from assms(2) s obtain k it where l: "lookup data i = Some (k, it)"
    by (auto simp: starStep_def split: option.splits)
  with assms(1) s have nb: "\<not> bothFlags it" by (auto dest: exclusive_lookup)
  then have "\<not> bothFlags (it\<lparr>isStarred := \<not> isStarred it\<rparr>)"
    by (simp add: bothFlags_def)
  with assms(1) s have "exclusive (setKey k (it\<lparr>isStarred := \<not> isStarred it\<rparr>) data)"
    by (simp add: exclusive_setKey)
  with assms(2) s l show ?thesis
    by (auto simp: starStep_def Let_def split: if_splits)
qed

lemma saveItemToArchive_exclusive:
  "\<not> bothFlags it \<Longrightarrow> exclusiveDisk d \<Longrightarrow> exclusiveDisk (saveItemToArchive it d)"
  by (simp add: saveItemToArchive_def exclusiveDisk_def Let_def exclusive_setKey bothFlags_def)

lemma deleteStep_exclusive:
  assumes "exclusive (fst s) \<and> exclusiveDisk (snd s)" and "deleteStep i s = Inr s'"
  shows "exclusive (fst s') \<and> exclusiveDisk (snd s')"
proof -
  obtain data d where s: "s = (data, d)" by (cases s)
  from assms(2) s obtain k it where l: "lookup data i = Some (k, it)"
    by (auto simp: deleteStep_def split: option.splits)
  with assms(1) s have nb: "\<not> bothFlags it" by (auto dest: exclusive_lookup)
  from assms(2) s l have s': "s' = (deleteKey k data, saveItemToArchive it d)"
    by (simp add: deleteStep_def)
  from assms(1) s nb show ?thesis
    unfolding s' by (simp add: exclusive_deleteKey saveItemToArchive_exclusive)
qed

lemma checkTasks_exclusive:
  assumes "exclusiveDisk d"
  shows "exclusiveDisk (snd (checkTasks num ids d))"
proof (cases "validateIDs num ids (getIDs (storage d))")
  case (Inl e)
  with assms show ?thesis by (simp add: checkTasks_def)
next
  case (Inr ids')
  obtain r data a b where f: "forEach (Plain ids') checkStep (storage d, [], []) = (r, data, a, b)"
    by (metis prod_cases4)
  have "exclusive (fst (snd (forEach (Plain ids') checkStep (storage d, [], []))))"
    using assms
    by (intro forEach_preserves [where P = "\<lambda>s. exclusive (fst s)"])
       (auto simp: exclusiveDisk_def intro: checkStep_exclusive)
  with f have "exclusive data" by simp
  with assms Inr f show ?thesis
    by (cases r) (simp_all add: checkTasks_def exclusiveDisk_def)
qed

lemma beginTasks_exclusive:
  assumes "exclusiveDisk d"
  shows "exclusiveDisk (snd (beginTasks num ids d))"
proof (cases "validateIDs num ids (getIDs (storage d))")
  case (Inl e)
  with assms show ?thesis by (simp add: beginTasks_def)
next
  case (Inr ids')
  obtain r data a b where f: "forEach (Promise ids') beginStep (storage d, [], []) = (r, data, a, b)"
    by (metis prod_cases4)
  have "exclusive (fst (snd (forEach (Promise ids') beginStep (storage d, [], []))))"
    using assms
    by (intro forEach_preserves [where P = "\<lambda>s. exclusive (fst s)"])
       (auto simp: exclusiveDisk_def intro: beginStep_exclusive)
  with f have "exclusive data" by simp
  with assms Inr f show ?thesis
    by (cases r) (simp_all add: beginTasks_def exclusiveDisk_def)
qed

lemma starItems_exclusive:
  assumes "exclusiveDisk d"
  shows "exclusiveDisk (snd (starItems num ids d))"
proof (cases "validateIDs num ids (getIDs (storage d))")
  case (Inl e)
  with assms show ?thesis by (simp add: starItems_def)
next
  case (Inr ids')
  obtain r data a b where f: "forEach (Plain ids') starStep (storage d, [], []) = (r, data, a, b)"
    by (metis prod_cases4)
  have "exclusive (fst (snd (forEach (Plain ids') starStep (storage d, [], []))))"
    using assms
    by (intro forEach_preserves [where P = "\<lambda>s. exclusive (fst s)"])
       (auto simp: exclusiveDisk_def intro: starStep_exclusive)
  with f have "exclusive data" by simp
  with assms Inr f show ?thesis
    by (cases r) (simp_all add: starItems_def exclusiveDisk_def)
qed

lemma deleteItems_exclusive:
  assumes "exclusiveDisk d"
  shows "exclusiveDisk (snd (deleteItems num ids d))"
proof (cases "validateIDs num ids (getIDs (storage d))")
  case (Inl e)
  with assms show ?thesis by (simp add: deleteItems_def)
next
  case (Inr ids')
  obtain r data d' where f: "forEach (Plain ids') deleteStep (storage d, d) = (r, data, d')"
    by (metis prod_cases3)
  have init: "exclusive (fst (storage d, d)) \<and> exclusiveDisk (snd (storage d, d))"
    using assms by (simp add: exclusiveDisk_def)
  have "exclusive (fst (snd (forEach (Plain ids') deleteStep (storage d, d)))) \<and>
        exclusiveDisk (snd (snd (forEach (Plain ids') deleteStep (storage d, d))))"
    by (rule forEach_preserves
          [where P = "\<lambda>s. exclusive (fst s) \<and> exclusiveDisk (snd s)" and f = deleteStep,
           OF deleteStep_exclusive init])
  with f have "exclusive data \<and> exclusiveDisk d'" by simp
  with Inr f show ?thesis
    by (cases r) (simp_all add: deleteItems_def exclusiveDisk_def)
qed

lemma restoreItems_exclusive:
  "exclusiveDisk d \<Longrightarrow> exclusiveDisk (snd (restoreItems num ids d))"
  by (simp add: restoreItems_def split: sum.splits)

lemma clear_exclusive:
  "exclusiveDisk d \<Longrightarrow> exclusiveDisk (snd (clear num d))"
  by (simp add: clear_def Let_def deleteItems_exclusive)

lemma createTask_exclusive:
  "exclusiveDisk d \<Longrightarrow> exclusiveDisk (snd (createTask today desc d))"
  by (auto simp: createTask_def Let_def exclusiveDisk_def Task_def bothFlags_def
           intro!: exclusive_setKey split: sum.splits)

lemma createNote_exclusive:
  "exclusiveDisk d \<Longrightarrow> exclusiveDisk (snd (createNote today desc d))"
  by (auto simp: createNote_def Let_def exclusiveDisk_def Note_def bothFlags_def
           intro!: exclusive_setKey split: sum.splits)

lemma moveBoards_exclusive:
  assumes "exclusiveDisk d"
  shows "exclusiveDisk (snd (moveBoards num input d))"
proof -
  have upd: "exclusive (setKey k (it\<lparr>boards := bs\<rparr>) (storage d))"
    if "lookup (storage d) i = Some (k, it)" for i k it bs
  proof -
    from assms that have "\<not> bothFlags it"
      by (auto simp: exclusiveDisk_def dest: exclusive_lookup)
    then have "\<not> bothFlags (it\<lparr>boards := bs\<rparr>)" by (simp add: bothFlags_def)
    with assms show ?thesis by (simp add: exclusiveDisk_def exclusive_setKey)
  qed
  from assms show ?thesis
    by (auto simp: moveBoards_def Let_def exclusiveDisk_def upd
             split: sum.splits option.splits)
qed

lemma updatePriority_exclusive:
  assumes "exclusiveDisk d"
  shows "exclusiveDisk (snd (updatePriority num input d))"
proof -
  have upd: "exclusive (setKey k (it\<lparr>priority := p\<rparr>) (storage d))"
    if "lookup (storage d) i = Some (k, it)" for i k it p
  proof -
    from assms that have "\<not> bothFlags it"
      by (auto simp: exclusiveDisk_def dest: exclusive_lookup)
    then have "\<not> bothFlags (it\<lparr>priority := p\<rparr>)" by (simp add: bothFlags_def)
    with assms show ?thesis by (simp add: exclusiveDisk_def exclusive_setKey)
  qed
  from assms show ?thesis
    by (auto simp: updatePriority_def Let_def exclusiveDisk_def upd
             split: sum.splits option.splits)
qed

lemma editDescription_exclusive:
  assumes "exclusiveDisk d"
  shows "exclusiveDisk (snd (editDescription num input d))"
proof -
  have upd: "exclusive (setKey k (it\<lparr>description := p\<rparr>) (storage d))"
    if "lookup (storage d) i = Some (k, it)" for i k it p
  proof -
    from assms that have "\<not> bothFlags it"
      by (auto simp: exclusiveDisk_def dest: exclusive_lookup)
    then have "\<not> bothFlags (it\<lparr>description := p\<rparr>)" by (simp add: bothFlags_def)
    with assms show ?thesis by (simp add: exclusiveDisk_def exclusive_setKey)
  qed
  from assms show ?thesis
    by (auto simp: editDescription_def Let_def exclusiveDisk_def upd
             split: sum.splits option.splits)
qed

lemma run_exclusive: "exclusiveDisk d \<Longrightarrow> exclusiveDisk (run num today c d)"
  by (cases c)
     (simp_all add: createTask_exclusive createNote_exclusive checkTasks_exclusive
        beginTasks_exclusive starItems_exclusive moveBoards_exclusive
        editDescription_exclusive updatePriority_exclusive deleteItems_exclusive
        restoreItems_exclusive clear_exclusive)

text \<open>
  C5. No task of the storage or of the archive has both \<open>isComplete\<close> and
  \<open>inProgress\<close> set: this holds of the empty collections, and every command (create,
  check, begin, star, move, edit, priority, delete, restore, clear) keeps it, so it holds
  after any sequence of commands.
\<close>

theorem flags_exclusive:
  "exclusiveDisk \<lparr>storage = [], archive = []\<rparr> \<and>
   (exclusiveDisk d \<longrightarrow> exclusiveDisk (fold (run num today) cs d))"
proof -
  have "exclusiveDisk d \<Longrightarrow> exclusiveDisk (fold (run num today) cs d)"
    by (induction cs arbitrary: d) (simp_all add: run_exclusive)
  then show ?thesis by (simp add: exclusiveDisk_def exclusive_def)
qed

theorem flags_exclusive_witness:
  "exclusiveDisk \<lparr>storage = [(1, taskA\<lparr>inProgress := True\<rparr>), (2, noteB)], archive = []\<rparr> \<and>
   exclusiveDisk (fold (run digits ''Mon Jan 01 2024'')
     [CheckTasks [''1''], CreateTask [''water'', ''plants''], BeginTasks [''3''], Clear]
     \<lparr>storage = [(1, taskA\<lparr>inProgress := True\<rparr>), (2, noteB)], archive = []\<rparr>)"
proof -
  let ?d = "\<lparr>storage = [(1, taskA\<lparr>inProgress := True\<rparr>), (2, noteB)], archive = []\<rparr>"
  have start: "exclusiveDisk ?d"
    by (simp add: exclusiveDisk_def exclusive_def bothFlags_def taskA_def noteB_def)
  with flags_exclusive [of ?d digits "''Mon Jan 01 2024''"
      "[CheckTasks [''1''], CreateTask [''water'', ''plants''], BeginTasks [''3''], Clear]"]
  show ?thesis by blast
qed

subsection \<open>Parsing the tokens of a new item\<close>

lemma isPriorityOpt_cases: "isPriorityOpt x = (x = ''p:1'' \<or> x = ''p:2'' \<or> x = ''p:3'')"
  by (simp add: isPriorityOpt_def)

lemma isPriorityOpt_not_tag: "isPriorityOpt x \<Longrightarrow> \<not> startsWith ''@'' x"
  by (auto simp: isPriorityOpt_cases startsWith_def)

lemma fold_sortToken:
  "fold sortToken input (bs, ds) =
     (bs @ filter (\<lambda>x. startsWith ''@'' x \<and> 1 < length x) input,
      ds @ filter (\<lambda>x. \<not> isPriorityOpt x \<and> \<not> (startsWith ''@'' x \<and> 1 < length x)) input)"
proof (induction input arbitrary: bs ds)
  case Nil
  then show ?case by simp
next
  case (Cons x xs)
  show ?case
  proof (cases "isPriorityOpt x")
    case True
    then have "\<not> startsWith ''@'' x" by (rule isPriorityOpt_not_tag)
    with True Cons.IH [of bs ds] show ?thesis by (simp add: sortToken_def)
  next
    case False
    then show ?thesis
      using Cons.IH [of "bs @ [x]" ds] Cons.IH [of bs "ds @ [x]"]
      by (simp add: sortToken_def)
  qed
qed

lemma getPriority_level:
  "priorityLevel (getPriority input) =
     (case find isPriorityOpt input of
        None \<Rightarrow> 1
      | Some x \<Rightarrow> if x = ''p:1'' then 1 else if x = ''p:2'' then 2 else 3)"
proof (cases "find isPriorityOpt input")
  case None
  then show ?thesis by (simp add: getPriority_def priorityLevel_def)
next
  case (Some x)
  then have "isPriorityOpt x" by (auto simp: find_Some_iff)
  then have "x = ''p:1'' \<or> x = ''p:2'' \<or> x = ''p:3''" by (simp add: isPriorityOpt_cases)
  with Some show ?thesis
    by (auto simp: getPriority_def priorityLevel_def digits_def digitOf_def)
qed

lemma getOptions_nonempty:
  assumes "input \<noteq> []"
  shows "getOptions input d =
     Inr \<lparr>opt_boards =
            (let tags = filter (\<lambda>x. startsWith ''@'' x \<and> 1 < length x) input
             in if tags = [] then [''My Board''] else tags),
          opt_description =
            join '' '' (filter (\<lambda>x. \<not> isPriorityOpt x \<and> \<not> (startsWith ''@'' x \<and> 1 < length x)) input),
          opt_id = generateID (storage d),
          opt_priority = getPriority input\<rparr>"
  using assms fold_sortToken [of input "[]" "[]"]
  by (simp add: getOptions_def Let_def)

text \<open>
  C6. On the tokens buy, milk, @shopping, p:2 the parser returns the board @shopping, the
  description "buy milk" and, as priority, the last character of p:2; the task stored
  under the next id has that description, that board and priority 2. In general, for a
  non-empty token list: the tokens that start with @ and are longer than one character
  are the boards, or My Board when there is none; the first token among p:1, p:2, p:3
  gives the priority, 1 when there is none; the tokens that are neither, joined by
  spaces, are the description.
\<close>

theorem createTask_parses:
  "getOptions [''buy'', ''milk'', ''@shopping'', ''p:2''] d =
     Inr \<lparr>opt_boards = [''@shopping''], opt_description = ''buy milk'',
          opt_id = generateID (storage d), opt_priority = PStr ''2''\<rparr> \<and>
   (\<exists>t. createTask today [''buy'', ''milk'', ''@shopping'', ''p:2''] d =
           (Inr t, d\<lparr>storage := setKey (generateID (storage d)) t (storage d)\<rparr>) \<and>
        isTask t \<and> description t = ''buy milk'' \<and> boards t = [''@shopping''] \<and>
        priority t = Some (PNum 2)) \<and>
   (input \<noteq> [] \<longrightarrow>
      (\<exists>t. createTask today input d =
              (Inr t, d\<lparr>storage := setKey (generateID (storage d)) t (storage d)\<rparr>) \<and>
           isTask t \<and> item_id t = generateID (storage d) \<and>
           boards t =
             (let tags = filter (\<lambda>x. startsWith ''@'' x \<and> 1 < length x) input
              in if tags = [] then [''My Board''] else tags) \<and>
           description t =
             join '' '' (filter (\<lambda>x. \<not> isPriorityOpt x \<and> \<not> (startsWith ''@'' x \<and> 1 < length x)) input) \<and>
           priority t =
             Some (PNum (case find isPriorityOpt input of
                           None \<Rightarrow> 1
                         | Some x \<Rightarrow> if x = ''p:1'' then 1 else if x = ''p:2'' then 2 else 3))))"
proof -
  have opts: "getOptions [''buy'', ''milk'', ''@shopping'', ''p:2''] d =
     Inr \<lparr>opt_boards = [''@shopping''], opt_description = ''buy milk'',
          opt_id = generateID (storage d), opt_priority = PStr ''2''\<rparr>"
    by (simp add: getOptions_def Let_def sortToken_def isPriorityOpt_def startsWith_def
          getPriority_def)
  have scenario: "\<exists>t. createTask today [''buy'', ''milk'', ''@shopping'', ''p:2''] d =
           (Inr t, d\<lparr>storage := setKey (generateID (storage d)) t (storage d)\<rparr>) \<and>
        isTask t \<and> description t = ''buy milk'' \<and> boards t = [''@shopping''] \<and>
        priority t = Some (PNum 2)"
    by (simp add: createTask_def opts Task_def Let_def priorityLevel_def digits_def digitOf_def)
  have general: "\<exists>t. createTask today input d =
              (Inr t, d\<lparr>storage := setKey (generateID (storage d)) t (storage d)\<rparr>) \<and>
           isTask t \<and> item_id t = generateID (storage d) \<and>
           boards t =
             (let tags = filter (\<lambda>x. startsWith ''@'' x \<and> 1 < length x) input
              in if tags = [] then [''My Board''] else tags) \<and>
           description t =
             join '' '' (filter (\<lambda>x. \<not> isPriorityOpt x \<and> \<not> (startsWith ''@'' x \<and> 1 < length x)) input) \<and>
           priority t =
             Some (PNum (case find isPriorityOpt input of
                           None \<Rightarrow> 1
                         | Some x \<Rightarrow> if x = ''p:1'' then 1 else if x = ''p:2'' then 2 else 3))"
    if "input \<noteq> []"
    using that
    by (simp add: createTask_def getOptions_nonempty Task_def getPriority_level del: Let_def)
       (simp add: Let_def)
  from opts scenario general show ?thesis by blast
qed

theorem createTask_parses_witness:
  "[''call'', ''p:3'', ''@'', ''@home'', ''p:1'', ''mum''] \<noteq> [] \<and>
   (\<exists>t. createTask ''Mon Jan 01 2024'' [''call'', ''p:3'', ''@'', ''@home'', ''p:1'', ''mum'']
            \<lparr>storage = [(4, noteB)], archive = []\<rparr> =
           (Inr t, \<lparr>storage = [(4, noteB), (5, t)], archive = []\<rparr>) \<and>
        item_id t = 5 \<and> boards t = [''@home''] \<and> description t = ''call @ mum'' \<and>
        priority t = Some (PNum 3))"
proof -
  let ?input = "[''call'', ''p:3'', ''@'', ''@home'', ''p:1'', ''mum'']"
  let ?d = "\<lparr>storage = [(4, noteB)], archive = []\<rparr>"
  have ne: "?input \<noteq> []" by simp
  have g: "generateID (storage ?d) = 5"
    by (simp add: generateID_def getIDs_def mathMax_def)
  from createTask_parses [of ?d "''Mon Jan 01 2024''" ?input] ne
  obtain t where t: "createTask ''Mon Jan 01 2024'' ?input ?d =
              (Inr t, ?d\<lparr>storage := setKey (generateID (storage ?d)) t (storage ?d)\<rparr>)"
     "item_id t = generateID (storage ?d)"
     "boards t =
             (let tags = filter (\<lambda>x. startsWith ''@'' x \<and> 1 < length x) ?input
              in if tags = [] then [''My Board''] else tags)"
     "description t =
             join '' '' (filter (\<lambda>x. \<not> isPriorityOpt x \<and> \<not> (startsWith ''@'' x \<and> 1 < length x)) ?input)"
     "priority t =
             Some (PNum (case find isPriorityOpt ?input of
                           None \<Rightarrow> 1
                         | Some x \<Rightarrow> if x = ''p:1'' then 1 else if x = ''p:2'' then 2 else 3))"
    by blast
  from t(1) g have 1: "createTask ''Mon Jan 01 2024'' ?input ?d =
           (Inr t, \<lparr>storage = [(4, noteB), (5, t)], archive = []\<rparr>)" by simp
  from t(2) g have 2: "item_id t = 5" by simp
  from t(3) have 3: "boards t = [''@home'']" by (simp add: startsWith_def)
  from t(4) have 4: "description t = ''call @ mum''"
    by (simp add: startsWith_def isPriorityOpt_def)
  from t(5) have 5: "priority t = Some (PNum 3)" by (simp add: isPriorityOpt_def)
  from ne 1 2 3 4 5 show ?thesis by blast
qed

text \<open>
  C7 at a failing input. A token list that holds only a board tag and a priority is not
  empty, so it passes the one check there is, and a task with the empty description is
  stored. The empty token list is refused.
\<close>

theorem createTask_empty_description:
  "createTask ''Mon Jan 01 2024'' [''@shopping'', ''p:2''] \<lparr>storage = [], archive = []\<rparr> =
     (Inr \<lparr>item_id = 1, created = ''Mon Jan 01 2024'', description = [], isStarred = False,
           boards = [''@shopping''], isTask = True, isComplete = False, inProgress = False,
           priority = Some (PNum 2)\<rparr>,
      \<lparr>storage =
         [(1, \<lparr>item_id = 1, created = ''Mon Jan 01 2024'', description = [], isStarred = False,
               boards = [''@shopping''], isTask = True, isComplete = False,
               inProgress = False, priority = Some (PNum 2)\<rparr>)],
       archive = []\<rparr>) \<and>
   createTask ''Mon Jan 01 2024'' [] \<lparr>storage = [], archive = []\<rparr> =
     (Inl MissingDesc, \<lparr>storage = [], archive = []\<rparr>)"
  by code_simp

subsection \<open>Filtering in place\<close>

lemma deleteWhere_step:
  assumes "distinct (map fst acc)"
  shows "(case map_of acc k of
            None \<Rightarrow> acc
          | Some it \<Rightarrow> if cond it then deleteKey k acc else acc) =
         filter (\<lambda>e. fst e \<noteq> k \<or> \<not> cond (snd e)) acc"
proof (cases "map_of acc k")
  case None
  then have "\<forall>e \<in> set acc. fst e \<noteq> k"
    by (auto simp: map_of_eq_None_iff)
  then have "filter (\<lambda>e. fst e \<noteq> k \<or> \<not> cond (snd e)) acc = acc"
    by (simp add: filter_id_conv)
  with None show ?thesis by simp
next
  case (Some it)
  then have mem: "(k, it) \<in> set acc" by (rule map_of_SomeD)
  have same: "snd e = it" if "e \<in> set acc" "fst e = k" for e
  proof -
    from that have "(k, snd e) \<in> set acc" by (cases e) auto
    with assms mem show ?thesis by (auto dest: eq_key_imp_eq_value)
  qed
  show ?thesis
  proof (cases "cond it")
    case True
    have "filter (\<lambda>e. fst e \<noteq> k \<or> \<not> cond (snd e)) acc = filter (\<lambda>e. fst e \<noteq> k) acc"
      using same True by (intro filter_cong) auto
    with Some True show ?thesis by (simp add: deleteKey_def)
  next
    case False
    have "filter (\<lambda>e. fst e \<noteq> k \<or> \<not> cond (snd e)) acc = acc"
      using same False by (auto simp: filter_id_conv)
    with Some False show ?thesis by simp
  qed
qed

lemma deleteWhere_fold:
  "distinct (map fst acc) \<Longrightarrow>
   fold (\<lambda>k acc. case map_of acc k of
                    None \<Rightarrow> acc
                  | Some it \<Rightarrow> if cond it then deleteKey k acc else acc) ks acc =
   filter (\<lambda>e. fst e \<notin> set ks \<or> \<not> cond (snd e)) acc"
proof (induction ks arbitrary: acc)
  case Nil
  then show ?case by simp
next
  case (Cons k ks)
  let ?acc' = "filter (\<lambda>e. fst e \<noteq> k \<or> \<not> cond (snd e)) acc"
  from Cons.prems have d': "distinct (map fst ?acc')" by (rule distinct_map_filter)
  have "filter (\<lambda>e. fst e \<notin> set ks \<or> \<not> cond (snd e)) ?acc' =
        filter (\<lambda>e. fst e \<notin> set (k # ks) \<or> \<not> cond (snd e)) acc"
    by (induction acc) auto
  with Cons.IH [OF d'] deleteWhere_step [OF Cons.prems, where k = k and cond = cond] show ?case
    by simp
qed

lemma deleteWhere_filter:
  assumes "distinct (getIDs data)"
  shows "deleteWhere cond data = filter (\<lambda>e. \<not> cond (snd e)) data"
proof -
  have "filter (\<lambda>e. fst e \<notin> set (getIDs data) \<or> \<not> cond (snd e)) data =
        filter (\<lambda>e. \<not> cond (snd e)) data"
    by (intro filter_cong) (auto simp: getIDs_def)
  with assms deleteWhere_fold [of data cond "getIDs data"] show ?thesis
    by (simp add: deleteWhere_def getIDs_def)
qed

lemma attributeStep_filter:
  assumes "r < length h" and "distinct (getIDs (h ! r))"
  shows "attributeStep x (r, h) = (r, h[r := filter (\<lambda>e. keeps x (snd e)) (h ! r)])"
proof -
  have id: "h[r := filter (\<lambda>e. True) (h ! r)] = h" by simp
  show ?thesis
    unfolding attributeStep_def keeps_def
    by (simp add: filterStarred_def filterComplete_def filterInProgress_def filterPending_def
          filterTask_def filterNote_def deleteWhere_filter [OF assms(2)] del: set_simps)
qed

lemma fold_attributeStep:
  "r < length h \<Longrightarrow> distinct (getIDs (h ! r)) \<Longrightarrow>
   fold attributeStep attr (r, h) =
     (r, h[r := filter (\<lambda>e. list_all (\<lambda>x. keeps x (snd e)) attr) (h ! r)])"
proof (induction attr arbitrary: h)
  case Nil
  then show ?case by simp
next
  case (Cons x xs)
  let ?h' = "h[r := filter (\<lambda>e. keeps x (snd e)) (h ! r)]"
  from Cons.prems have len: "r < length ?h'" by simp
  from Cons.prems have dist: "distinct (getIDs (?h' ! r))"
    by (simp add: getIDs_def distinct_map_filter)
  have "filter (\<lambda>e. list_all (\<lambda>x. keeps x (snd e)) xs) (filter (\<lambda>e. keeps x (snd e)) (h ! r)) =
        filter (\<lambda>e. list_all (\<lambda>x. keeps x (snd e)) (x # xs)) (h ! r)"
    by (simp add: conj_commute)
  with Cons.IH [OF len dist] Cons.prems show ?case
    by (simp add: attributeStep_filter)
qed

lemma filterByAttributes_given:
  assumes "r < length h" and "distinct (getIDs (h ! r))"
  shows "filterByAttributes attr (Some r) d h =
     (r, h[r := filter (\<lambda>e. list_all (\<lambda>x. keeps x (snd e)) attr) (h ! r)])"
proof (cases "h ! r = []")
  case True
  then have "h[r := filter (\<lambda>e. list_all (\<lambda>x. keeps x (snd e)) attr) (h ! r)] = h"
    by (metis filter.simps(1) list_update_id)
  with True show ?thesis
    by (simp add: filterByAttributes_def fetch_def getIDs_def)
next
  case False
  with assms show ?thesis
    by (simp add: filterByAttributes_def fetch_def fold_attributeStep getIDs_def)
qed

lemma if_both: "P a \<Longrightarrow> P b \<Longrightarrow> P (if c then a else b)"
  by simp

lemma attributeStep_shape: "\<exists>c. attributeStep x (r, h) = (r, h[r := c])"
proof -
  have same: "\<exists>c. (r, h) = (r, h[r := c])"
    by (rule exI [of _ "h ! r"]) simp
  have filters:
    "\<exists>c. filterStarred r h = (r, h[r := c])" "\<exists>c. filterComplete r h = (r, h[r := c])"
    "\<exists>c. filterInProgress r h = (r, h[r := c])" "\<exists>c. filterPending r h = (r, h[r := c])"
    "\<exists>c. filterTask r h = (r, h[r := c])" "\<exists>c. filterNote r h = (r, h[r := c])"
    unfolding filterStarred_def filterComplete_def filterInProgress_def
      filterPending_def filterTask_def filterNote_def
    by (rule exI, rule refl)+
  note split = if_both [where P = "\<lambda>s. \<exists>c. s = (r, h[r := c])"]
  show ?thesis
    unfolding attributeStep_def prod.case
    by (intro split filters same)
qed

lemma attributeStep_others:
  assumes "attributeStep x (r, h) = (r', h')"
  shows "r' = r \<and> length h' = length h \<and> take r h' = take r h"
proof -
  from attributeStep_shape [of x r h] assms obtain c where "r' = r" "h' = h[r := c]"
    by auto
  then show ?thesis by simp
qed

lemma fold_attributeStep_others:
  "fold attributeStep attr (r, h) = (r', h') \<Longrightarrow> r' = r \<and> length h' = length h \<and> take r h' = take r h"
proof (induction attr arbitrary: h)
  case Nil
  then show ?case by simp
next
  case (Cons x xs)
  obtain r1 h1 where s: "attributeStep x (r, h) = (r1, h1)" by (cases "attributeStep x (r, h)")
  then have 1: "r1 = r \<and> length h1 = length h \<and> take r h1 = take r h"
    by (rule attributeStep_others)
  from Cons.prems s 1 have "fold attributeStep xs (r, h1) = (r', h')" by simp
  then have "r' = r \<and> length h' = length h1 \<and> take r h' = take r h1" by (rule Cons.IH)
  with 1 show ?case by simp
qed

lemma filterByAttributes_fresh:
  "take (length h) (snd (filterByAttributes attr None d h)) = h"
proof -
  obtain r' h' where f: "fold attributeStep attr (length h, h @ [storage d]) = (r', h')"
    by (cases "fold attributeStep attr (length h, h @ [storage d])")
  then have "take (length h) h' = take (length h) (h @ [storage d])"
    using fold_attributeStep_others by blast
  with f show ?thesis
    by (simp add: filterByAttributes_def fetch_def)
qed

text \<open>
  C1, as the code has it. Attribute filtering is not pure: handed a collection object, it
  returns that same object, from which every entry that fails a recognised attribute has
  been deleted. Only when it reads the storage itself (no collection handed in), and in
  grouping by board, grouping by date and searching, are all objects that existed before
  the call left as they were.
\<close>

theorem filterByAttributes_in_place:
  "(r < length h \<and> distinct (getIDs (h ! r)) \<longrightarrow>
      filterByAttributes attr (Some r) d h =
        (r, h[r := filter (\<lambda>e. list_all (\<lambda>x. keeps x (snd e)) attr) (h ! r)])) \<and>
   take (length h) (snd (filterByAttributes attr None d h)) = h \<and>
   snd (groupByBoard (Some r) bs d h) = h \<and>
   take (length h) (snd (groupByBoard None bs d h)) = h \<and>
   snd (groupByDate (Some r) dates d h) = h \<and>
   take (length h) (snd (groupByDate None dates d h)) = h \<and>
   take (length h) (snd (findItems lower terms d h)) = h"
proof -
  have "snd (groupByBoard (Some r) bs d h) = h"
    by (simp add: groupByBoard_def fetch_def Let_def)
  moreover have "take (length h) (snd (groupByBoard None bs d h)) = h"
    by (simp add: groupByBoard_def fetch_def Let_def)
  moreover have "snd (groupByDate (Some r) dates d h) = h"
    by (simp add: groupByDate_def fetch_def Let_def)
  moreover have "take (length h) (snd (groupByDate None dates d h)) = h"
    by (simp add: groupByDate_def fetch_def Let_def)
  moreover have "take (length h) (snd (findItems lower terms d h)) = h"
    by (simp add: findItems_def groupByBoard_def fetch_def Let_def)
  ultimately show ?thesis
    by (simp add: filterByAttributes_given filterByAttributes_fresh)
qed

theorem filterByAttributes_in_place_witness:
  "(0::nat) < length [[(1, taskA), (2, noteB\<lparr>isStarred := True\<rparr>)]] \<and>
   distinct (getIDs ([[(1, taskA), (2, noteB\<lparr>isStarred := True\<rparr>)]] ! 0)) \<and>
   filterByAttributes [''starred'', ''x'', ''note''] (Some 0) \<lparr>storage = [], archive = []\<rparr>
      [[(1, taskA), (2, noteB\<lparr>isStarred := True\<rparr>)]]
     = (0, [[(2, noteB\<lparr>isStarred := True\<rparr>)]])"
  using filterByAttributes_in_place [of 0 "[[(1, taskA), (2, noteB\<lparr>isStarred := True\<rparr>)]]"
      "[''starred'', ''x'', ''note'']" "\<lparr>storage = [], archive = []\<rparr>"]
  by (simp add: getIDs_def keeps_def taskA_def noteB_def)

text \<open>
  C1 as stated fails: filtering a task and a note by \<open>task\<close> returns the object it was
  given, and that object has lost the note.
\<close>

theorem filterByAttributes_mutates:
  "fst (filterByAttributes [''task''] (Some 0) \<lparr>storage = [], archive = []\<rparr>
          [[(1, taskA), (2, noteB)]]) = 0 \<and>
   snd (filterByAttributes [''task''] (Some 0) \<lparr>storage = [], archive = []\<rparr>
          [[(1, taskA), (2, noteB)]]) ! 0 = [(1, taskA)] \<and>
   snd (filterByAttributes [''task''] (Some 0) \<lparr>storage = [], archive = []\<rparr>
          [[(1, taskA), (2, noteB)]]) ! 0 \<noteq> [[(1, taskA), (2, noteB)]] ! 0"
  by code_simp

subsection \<open>Failures of the remote backend\<close>

text \<open>
  C9. With a complete configuration, a GET that the transport rejects makes the read
  return the empty collection, not an error, and a PUT that the transport rejects makes
  the write return as it does on success; in both cases exactly one request has been
  sent, so nothing is tried again.
\<close>

theorem dynamo_failures_swallowed:
  "(checkAndGetDynamoInstance cfg = Inr () \<and> http (requestFor GET cfg None) = Rejected msg \<longrightarrow>
      getFromDynamo parse cfg http = (Inr [], [requestFor GET cfg None])) \<and>
   (checkAndGetDynamoInstance cfg = Inr () \<and> http (requestFor PUT cfg (Some data)) = Rejected msg \<longrightarrow>
      setToDynamo cfg data http = (Inr (), [requestFor PUT cfg (Some data)]) \<and>
      setToDynamo cfg data (\<lambda>r. Resolved None) = (Inr (), [requestFor PUT cfg (Some data)]))"
  by (simp add: getFromDynamo_def setToDynamo_def Let_def)

theorem dynamo_failures_swallowed_witness:
  "checkAndGetDynamoInstance
     \<lparr>useDynamo = True, dynamoBaseUrl = Some ''https://kv.example'', dynamoToken = Some ''t'',
      dynamoNamespace = Some ''ns''\<rparr> = Inr () \<and>
   getFromDynamo (\<lambda>s. Some [(1, taskA)])
     \<lparr>useDynamo = True, dynamoBaseUrl = Some ''https://kv.example'', dynamoToken = Some ''t'',
      dynamoNamespace = Some ''ns''\<rparr> (\<lambda>r. Rejected ''timeout of 10000ms exceeded'')
     = (Inr [], [\<lparr>req_verb = GET, req_base = ''https://kv.example'', req_token = ''t'',
                   req_path = ''/api/ns/storage.json'', req_body = None\<rparr>]) \<and>
   setToDynamo
     \<lparr>useDynamo = True, dynamoBaseUrl = Some ''https://kv.example'', dynamoToken = Some ''t'',
      dynamoNamespace = Some ''ns''\<rparr> [(1, taskA)] (\<lambda>r. Rejected ''timeout of 10000ms exceeded'')
     = (Inr (), [\<lparr>req_verb = PUT, req_base = ''https://kv.example'', req_token = ''t'',
                   req_path = ''/api/ns/storage.json'', req_body = Some [(1, taskA)]\<rparr>])"
proof -
  let ?cfg = "\<lparr>useDynamo = True, dynamoBaseUrl = Some ''https://kv.example'',
      dynamoToken = Some ''t'', dynamoNamespace = Some ''ns''\<rparr>"
  let ?http = "\<lambda>r :: request. (Rejected ''timeout of 10000ms exceeded'' :: string option reply)"
  have c: "checkAndGetDynamoInstance ?cfg = Inr ()"
    by (simp add: checkAndGetDynamoInstance_def missing_def)
  have g: "requestFor GET ?cfg None =
      \<lparr>req_verb = GET, req_base = ''https://kv.example'', req_token = ''t'',
       req_path = ''/api/ns/storage.json'', req_body = None\<rparr>"
    by (simp add: requestFor_def storagePath_def)
  have p: "requestFor PUT ?cfg (Some [(1, taskA)]) =
      \<lparr>req_verb = PUT, req_base = ''https://kv.example'', req_token = ''t'',
       req_path = ''/api/ns/storage.json'', req_body = Some [(1, taskA)]\<rparr>"
    by (simp add: requestFor_def storagePath_def)
  from dynamo_failures_swallowed
         [of ?cfg ?http "''timeout of 10000ms exceeded''" "\<lambda>s. Some [(1, taskA)]" "[(1, taskA)]"]
       c g p
  show ?thesis by simp
qed

end
